theory Spec2Isabelle
  imports Main "HOL-Library.List_Lexorder" "HOL-Library.Char_ord"
begin

section \<open>Strings\<close>

text \<open>
  A JavaScript string is modelled as a \<^typ>\<open>string\<close>: a list of characters with codes
  0 to 255 (ASCII and the Latin-1 supplement). The order on strings is the
  lexicographic order on character codes, which is how SQLite's default BINARY
  collation compares TEXT values.
\<close>

text \<open>
  The characters that \<^verbatim>\<open>String.prototype.trim\<close> strips (ECMAScript WhiteSpace and
  LineTerminator), as far as they lie in the modelled range: TAB, LF, VT, FF, CR,
  SPACE and NO-BREAK SPACE.
\<close>

definition isWhiteSpace :: "char \<Rightarrow> bool" where
  "isWhiteSpace c = (of_char c \<in> {9, 10, 11, 12, 13, 32, 160 :: nat})"

definition trim :: "string \<Rightarrow> string" where
  "trim s = rev (dropWhile isWhiteSpace (rev (dropWhile isWhiteSpace s)))"

text \<open>
  \<^verbatim>\<open>String.prototype.toLowerCase\<close> on the modelled range: A to Z and the Latin-1
  capitals (0xC0 to 0xDE without the multiplication sign 0xD7) move up by 32.
\<close>

definition lowerChar :: "char \<Rightarrow> char" where
  "lowerChar c = (let n = of_char c :: nat in
     if (65 \<le> n \<and> n \<le> 90) \<or> (192 \<le> n \<and> n \<le> 222 \<and> n \<noteq> 215)
     then char_of (n + 32) else c)"

definition toLowerCase :: "string \<Rightarrow> string" where
  "toLowerCase s = map lowerChar s"

section \<open>Tag normalization\<close>

text \<open>
  \<^verbatim>\<open>
  function normalizeTags(tags) {
      if (!tags || tags.length === 0) { return []; }
      const seen = new Set();
      return tags
          .map((tag) => tag.trim())
          .filter((tag) => {
          if (!tag) return false;
          const lower = tag.toLowerCase();
          if (seen.has(lower)) return false;
          seen.add(lower);
          return true;
      });
  }
  \<close>
  The callback of \<^verbatim>\<open>filter\<close> reads and updates the set \<^verbatim>\<open>seen\<close>; the model passes the
  set along the list.
\<close>

fun filterSeen :: "string set \<Rightarrow> string list \<Rightarrow> string list" where
  "filterSeen seen [] = []"
| "filterSeen seen (tag # rest) =
     (if tag = [] then filterSeen seen rest
      else let lower = toLowerCase tag in
        if lower \<in> seen then filterSeen seen rest
        else tag # filterSeen (insert lower seen) rest)"

text \<open>
  The typed call sites pass \<^verbatim>\<open>string[] | undefined\<close>; \<^term>\<open>None\<close> is \<^verbatim>\<open>undefined\<close>.
\<close>

definition normalizeTags :: "string list option \<Rightarrow> string list" where
  "normalizeTags tags =
     (case tags of
        None \<Rightarrow> []
      | Some ts \<Rightarrow> if length ts = 0 then [] else filterSeen {} (map trim ts))"

section \<open>JSON values and JSON columns\<close>

text \<open>
  Numbers are integers throughout: fractions and the precision of doubles are not
  modelled. An object is the list of its entries.
\<close>

datatype json =
    JNull
  | JBool bool
  | JNum int
  | JStr string
  | JArr "json list"
  | JObj "(string \<times> json) list"

text \<open>
  The text held by a JSON column is modelled by what \<^verbatim>\<open>JSON.parse\<close> makes of it: the
  empty string, a non-empty text that is not JSON, or a text that parses to a value.
  \<^verbatim>\<open>JSON.stringify\<close> of a value is a text that parses back to that value.
\<close>

datatype coltext = EmptyText | MalformedText | JsonText json

datatype error = TypeError | SqliteError

definition JSON_stringify :: "json \<Rightarrow> coltext" where
  "JSON_stringify v = JsonText v"

text \<open>\<^term>\<open>None\<close> stands for the SyntaxError that \<^verbatim>\<open>JSON.parse\<close> throws.\<close>

fun JSON_parse :: "coltext \<Rightarrow> json option" where
  "JSON_parse EmptyText = None"
| "JSON_parse MalformedText = None"
| "JSON_parse (JsonText v) = Some v"

text \<open>
  \<^verbatim>\<open>function serializeJson(value) { return JSON.stringify(value ?? {}); }\<close>
  with \<^term>\<open>None\<close> for \<^verbatim>\<open>undefined\<close>.
\<close>

definition serializeJson :: "json option \<Rightarrow> coltext" where
  "serializeJson val =
     JSON_stringify (case val of None \<Rightarrow> JObj [] | Some JNull \<Rightarrow> JObj [] | Some v \<Rightarrow> v)"

text \<open>
  \<^verbatim>\<open>
  function parseJson(value, fallback) {
      if (!value) { return fallback; }
      try { return JSON.parse(value); } catch { return fallback; }
  }
  \<close>
  The column value is \<^term>\<open>None\<close> for SQL NULL.
\<close>

definition parseJson :: "coltext option \<Rightarrow> json \<Rightarrow> json" where
  "parseJson val fallback =
     (case val of
        None \<Rightarrow> fallback
      | Some EmptyText \<Rightarrow> fallback
      | Some t \<Rightarrow> (case JSON_parse t of None \<Rightarrow> fallback | Some v \<Rightarrow> v))"

subsection \<open>normalizeTags on a parsed column\<close>

text \<open>
  \<^verbatim>\<open>mapRow\<close> calls \<^verbatim>\<open>normalizeTags\<close> on whatever \<^verbatim>\<open>JSON.parse\<close> returned. The same
  source lines then run on an arbitrary JSON value: \<^verbatim>\<open>!tags\<close> holds for null, false, 0
  and the empty string; \<^verbatim>\<open>tags.length === 0\<close> holds for an empty array and for an
  object whose entry \<^verbatim>\<open>length\<close> is the number 0; \<^verbatim>\<open>tags.map\<close> is a function for arrays
  only, and \<^verbatim>\<open>tag.trim\<close> for strings only, every other call being a TypeError.
\<close>

fun falsy :: "json \<Rightarrow> bool" where
  "falsy JNull = True"
| "falsy (JBool b) = (\<not> b)"
| "falsy (JNum n) = (n = 0)"
| "falsy (JStr s) = (s = [])"
| "falsy (JArr xs) = False"
| "falsy (JObj kvs) = False"

text \<open>Of entries with the same key, \<^verbatim>\<open>JSON.parse\<close> keeps the last.\<close>

fun lengthIsZero :: "json \<Rightarrow> bool" where
  "lengthIsZero (JArr xs) = (length xs = 0)"
| "lengthIsZero (JStr s) = (length s = 0)"
| "lengthIsZero (JObj kvs) = (map_of (rev kvs) ''length'' = Some (JNum 0))"
| "lengthIsZero v = False"

fun trimAll :: "json list \<Rightarrow> error + string list" where
  "trimAll [] = Inr []"
| "trimAll (JStr s # rest) =
     (case trimAll rest of Inl e \<Rightarrow> Inl e | Inr out \<Rightarrow> Inr (trim s # out))"
| "trimAll (v # rest) = Inl TypeError"

definition normalizeTagsUntyped :: "json \<Rightarrow> error + string list" where
  "normalizeTagsUntyped tags =
     (if falsy tags \<or> lengthIsZero tags then Inr []
      else case tags of
        JArr xs \<Rightarrow>
          (case trimAll xs of Inl e \<Rightarrow> Inl e | Inr trimmed \<Rightarrow> Inr (filterSeen {} trimmed))
      | _ \<Rightarrow> Inl TypeError)"

section \<open>Rows and records\<close>

text \<open>
  The value of the \<^verbatim>\<open>importance INTEGER\<close> column as better-sqlite3 hands it over:
  NULL, an integer, or a text that the column's INTEGER affinity has left as text
  and that arrives as a JavaScript string. Of such a text the model keeps what
  \<^verbatim>\<open>Number\<close> makes of it: NaN (\<^verbatim>\<open>'abc'\<close>), or an integer (\<^verbatim>\<open>'0x1F'\<close> is 31, the empty text
  is 0). Fractions and infinities are not modelled, in this column as elsewhere.
\<close>

datatype colval = CNull | CInt int | CNonNumeric | CNumericText int

text \<open>A JavaScript number: an integer, or NaN.\<close>

datatype jsnum = Num int | NaN

text \<open>
  The text of the tags column has a second reader: \<^verbatim>\<open>json_each\<close> in the WHERE clause
  of \<^verbatim>\<open>listMemories\<close>. It fails with "malformed JSON", or yields the value of each
  element of an array (of each entry of an object, or the one value of a text that
  is neither): a string as TEXT, a number as a number, true and false as 1 and 0,
  an element that is itself an array or an object as its JSON text. On what the
  store writes, the two readers agree. They differ where SQLite accepts a JSON5
  text that \<^verbatim>\<open>JSON.parse\<close> rejects, and the text of a nested element is not
  determined by the parsed value; so the model keeps what each reader makes of the
  column.
\<close>

datatype sqlvalue = SqlNull | SqlInteger int | SqlText string

datatype eachRows = MalformedJson | Rows "sqlvalue list"

text \<open>
  One row of the table \<^verbatim>\<open>memories\<close>. The columns \<^verbatim>\<open>tags\<close> and \<^verbatim>\<open>metadata\<close> hold
  \<^term>\<open>None\<close> for SQL NULL. \<open>r_tags\<close> is the tags column as \<^verbatim>\<open>JSON.parse\<close> reads it,
  \<open>r_tags_each\<close> the same column as \<^verbatim>\<open>json_each\<close> reads it (no rows on NULL).
\<close>

record row =
  r_id :: string
  r_title :: "string option"
  r_content :: string
  r_importance :: colval
  r_tags :: "coltext option"
  r_tags_each :: eachRows
  r_metadata :: "coltext option"
  r_created_at :: string
  r_updated_at :: string

text \<open>\<^verbatim>\<open>MemoryRecord\<close>\<close>

record memoryRecord =
  m_id :: string
  m_title :: "string option"
  m_content :: string
  m_importance :: "jsnum option"
  m_tags :: "string list"
  m_metadata :: json
  m_createdAt :: string
  m_updatedAt :: string

text \<open>\<^verbatim>\<open>MemoryCreateInput\<close>; \<^term>\<open>None\<close> is an omitted field.\<close>

record createInput =
  c_title :: "string option"
  c_content :: string
  c_importance :: "int option"
  c_tags :: "string list option"
  c_metadata :: "(string \<times> json) list option"

text \<open>
  \<^verbatim>\<open>MemoryUpdateInput\<close>: a nullable field is omitted (\<^verbatim>\<open>undefined\<close>), null, or a value.
\<close>

datatype 'a field = Omitted | Null | Value 'a

record updateInput =
  u_id :: string
  u_title :: "string field"
  u_content :: "string option"
  u_importance :: "int field"
  u_tags :: "string list field"
  u_metadata :: "(string \<times> json) list field"

text \<open>The table, in storage order.\<close>

type_synonym store = "row list"

section \<open>Reading a row\<close>

text \<open>\<^verbatim>\<open>Math.max(0, Math.min(10, x))\<close>: both functions return NaN on NaN.\<close>

fun clampImportance :: "jsnum \<Rightarrow> jsnum" where
  "clampImportance (Num n) = Num (max 0 (min 10 n))"
| "clampImportance NaN = NaN"

text \<open>
  \<^verbatim>\<open>
  importance: typeof row.importance === "number"
      ? Math.max(0, Math.min(10, row.importance))
      : row.importance !== null && row.importance !== undefined
          ? Number(row.importance)
          : null,
  \<close>
  Only the first branch clamps: a text goes through \<^verbatim>\<open>Number\<close> as it is.
\<close>

fun readImportance :: "colval \<Rightarrow> jsnum option" where
  "readImportance (CInt n) = Some (clampImportance (Num n))"
| "readImportance CNonNumeric = Some NaN"
| "readImportance (CNumericText n) = Some (Num n)"
| "readImportance CNull = None"

text \<open>
  \<^verbatim>\<open>
  mapRow(row) {
      const tags = Array.isArray(row.tags)
          ? normalizeTags(row.tags)
          : normalizeTags(parseJson(row.tags, []));
      const metadata = parseJson(row.metadata, {});
      return { id: row.id, title: row.title ?? null, content: row.content,
               importance: ..., tags, metadata,
               createdAt: row.created_at, updatedAt: row.updated_at };
  }
  \<close>
  A column value is never a JavaScript array, so the second branch computes the
  tags. A TypeError of \<^verbatim>\<open>normalizeTags\<close> leaves \<^verbatim>\<open>mapRow\<close>.
\<close>

definition mapRow :: "row \<Rightarrow> error + memoryRecord" where
  "mapRow row =
     (case normalizeTagsUntyped (parseJson (r_tags row) (JArr [])) of
        Inl e \<Rightarrow> Inl e
      | Inr tags \<Rightarrow>
          Inr \<lparr> m_id = r_id row,
                m_title = r_title row,
                m_content = r_content row,
                m_importance = readImportance (r_importance row),
                m_tags = tags,
                m_metadata = parseJson (r_metadata row) (JObj []),
                m_createdAt = r_created_at row,
                m_updatedAt = r_updated_at row \<rparr>)"

section \<open>The statements on single rows\<close>

text \<open>
  How a JavaScript number or null is bound to the column: SQLite stores a NaN as
  NULL.
\<close>

fun bindImportance :: "jsnum option \<Rightarrow> colval" where
  "bindImportance None = CNull"
| "bindImportance (Some (Num n)) = CInt n"
| "bindImportance (Some NaN) = CNull"

text \<open>
  \<^verbatim>\<open>INSERT INTO memories ...\<close>: \<^verbatim>\<open>id\<close> is the primary key, so a row with an id that is
  already there is refused.
\<close>

definition insertRow :: "store \<Rightarrow> row \<Rightarrow> error + store" where
  "insertRow db row =
     (if r_id row \<in> set (map r_id db) then Inl SqliteError else Inr (db @ [row]))"

text \<open>\<^verbatim>\<open>SELECT * FROM memories WHERE id = ?\<close>, read with \<^verbatim>\<open>get\<close>.\<close>

definition selectById :: "store \<Rightarrow> string \<Rightarrow> row option" where
  "selectById db ident = find (\<lambda>r. r_id r = ident) db"

text \<open>
  \<^verbatim>\<open>addMemory(input)\<close>. The identifier drawn by \<^verbatim>\<open>uuidv4()\<close> and the time read by
  \<^verbatim>\<open>new Date().toISOString()\<close> are arguments of the model.
\<close>

definition addMemory ::
  "store \<Rightarrow> string \<Rightarrow> string \<Rightarrow> createInput \<Rightarrow> error + memoryRecord \<times> store" where
  "addMemory db ident now input =
     (let normalizedTags = normalizeTags (c_tags input);
          importance = map_option (\<lambda>n. clampImportance (Num n)) (c_importance input)
      in case insertRow db
             \<lparr> r_id = ident,
               r_title = c_title input,
               r_content = c_content input,
               r_importance = bindImportance importance,
               r_tags = Some (JSON_stringify (JArr (map JStr normalizedTags))),
               r_tags_each = Rows (map SqlText normalizedTags),
               r_metadata = Some (serializeJson (map_option JObj (c_metadata input))),
               r_created_at = now,
               r_updated_at = now \<rparr> of
           Inl e \<Rightarrow> Inl e
         | Inr db' \<Rightarrow>
             Inr (\<lparr> m_id = ident,
                    m_title = c_title input,
                    m_content = c_content input,
                    m_importance = importance,
                    m_tags = normalizedTags,
                    m_metadata = (case c_metadata input of None \<Rightarrow> JObj [] | Some kvs \<Rightarrow> JObj kvs),
                    m_createdAt = now,
                    m_updatedAt = now \<rparr>, db'))"

text \<open>\<^verbatim>\<open>getMemory(id)\<close>: \<^term>\<open>Inr None\<close> is the result \<^verbatim>\<open>null\<close>.\<close>

definition getMemory :: "store \<Rightarrow> string \<Rightarrow> error + memoryRecord option" where
  "getMemory db ident =
     (case selectById db ident of
        None \<Rightarrow> Inr None
      | Some row \<Rightarrow> (case mapRow row of Inl e \<Rightarrow> Inl e | Inr m \<Rightarrow> Inr (Some m)))"

text \<open>
  \<^verbatim>\<open>
  updateMemory(input) {
      const existing = this.getMemory(input.id);
      if (!existing) return null;
      const nextTitle = input.title !== undefined ? input.title : existing.title;
      const nextContent = input.content ?? existing.content;
      const nextImportance = input.importance !== undefined ? input.importance : existing.importance;
      const nextTags = input.tags !== undefined ? normalizeTags(input.tags ?? undefined) : existing.tags;
      const nextMetadata = input.metadata !== undefined ? input.metadata ?? {} : existing.metadata;
      const now = new Date().toISOString();
      ... UPDATE memories SET title = @title, content = @content, importance = @importance,
          tags = @tags, metadata = @metadata, updated_at = @updated_at WHERE id = @id ...
      return { ...existing, title: nextTitle ?? null, content: nextContent,
               importance: typeof nextImportance === "number"
                   ? Math.max(0, Math.min(10, nextImportance)) : null,
               tags: nextTags, metadata: nextMetadata, updatedAt: now };
  }
  \<close>
\<close>

definition updateMemory ::
  "store \<Rightarrow> string \<Rightarrow> updateInput \<Rightarrow> error + memoryRecord option \<times> store" where
  "updateMemory db now input =
     (case getMemory db (u_id input) of
        Inl e \<Rightarrow> Inl e
      | Inr None \<Rightarrow> Inr (None, db)
      | Inr (Some existing) \<Rightarrow>
          (let nextTitle =
                 (case u_title input of
                    Omitted \<Rightarrow> m_title existing | Null \<Rightarrow> None | Value t \<Rightarrow> Some t);
               nextContent =
                 (case u_content input of None \<Rightarrow> m_content existing | Some c \<Rightarrow> c);
               nextImportance =
                 (case u_importance input of
                    Omitted \<Rightarrow> m_importance existing | Null \<Rightarrow> None | Value n \<Rightarrow> Some (Num n));
               nextTags =
                 (case u_tags input of
                    Omitted \<Rightarrow> m_tags existing
                  | Null \<Rightarrow> normalizeTags None
                  | Value ts \<Rightarrow> normalizeTags (Some ts));
               nextMetadata =
                 (case u_metadata input of
                    Omitted \<Rightarrow> m_metadata existing | Null \<Rightarrow> JObj [] | Value kvs \<Rightarrow> JObj kvs);
               importance = map_option clampImportance nextImportance;
               db' = map (\<lambda>r. if r_id r = u_id input
                                then r \<lparr> r_title := nextTitle,
                                       r_content := nextContent,
                                       r_importance := bindImportance importance,
                                       r_tags := Some (JSON_stringify (JArr (map JStr nextTags))),
                                       r_tags_each := Rows (map SqlText nextTags),
                                       r_metadata := Some (serializeJson (Some nextMetadata)),
                                       r_updated_at := now \<rparr>
                                else r) db
           in Inr (Some (existing \<lparr> m_title := nextTitle,
                                    m_content := nextContent,
                                    m_importance := importance,
                                    m_tags := nextTags,
                                    m_metadata := nextMetadata,
                                    m_updatedAt := now \<rparr>), db')))"

text \<open>
  \<^verbatim>\<open>deleteMemory(id)\<close>: \<^verbatim>\<open>DELETE FROM memories WHERE id = ?\<close>, and whether a row
  went.
\<close>

definition deleteMemory :: "store \<Rightarrow> string \<Rightarrow> bool \<times> store" where
  "deleteMemory db ident =
     (0 < length (filter (\<lambda>r. r_id r = ident) db), filter (\<lambda>r. r_id r \<noteq> ident) db)"

section \<open>Listing\<close>

text \<open>\<^verbatim>\<open>MemoryFilters\<close>; \<^term>\<open>None\<close> is an omitted filter.\<close>

record filters =
  f_search :: "string option"
  f_tags :: "string list option"
  f_minImportance :: "int option"
  f_maxImportance :: "int option"
  f_limit :: "int option"
  f_offset :: "int option"
  f_before :: "string option"
  f_after :: "string option"

text \<open>\<^verbatim>\<open>MemoryListResult\<close>\<close>

record listResult =
  l_items :: "memoryRecord list"
  l_total :: int
  l_limit :: int
  l_offset :: int

subsection \<open>The WHERE clause\<close>

text \<open>
  The fragments that \<^verbatim>\<open>listMemories\<close> pushes on \<^verbatim>\<open>whereClauses\<close>, each with the
  parameter bound to it:
  \<^item> \<^verbatim>\<open>(title LIKE @search OR content LIKE @search)\<close>
  \<^item> \<^verbatim>\<open>EXISTS (SELECT 1 FROM json_each(memories.tags) WHERE value = @tagN)\<close>
  \<^item> \<^verbatim>\<open>importance >= @minImportance\<close>, \<^verbatim>\<open>importance <= @maxImportance\<close>
  \<^item> \<^verbatim>\<open>updated_at <= @before\<close>, \<^verbatim>\<open>updated_at >= @after\<close>
\<close>

datatype clause =
    SearchLike string
  | TagExists string
  | ImportanceGe int
  | ImportanceLe int
  | UpdatedLe string
  | UpdatedGe string

text \<open>
  The clauses in the order of the source. A search that is empty or blank, an empty
  tag list, an empty \<^verbatim>\<open>before\<close> or \<^verbatim>\<open>after\<close> push nothing.
\<close>

definition whereClauses :: "filters \<Rightarrow> clause list" where
  "whereClauses f =
     (case f_search f of
        None \<Rightarrow> []
      | Some s \<Rightarrow> if s \<noteq> [] \<and> trim s \<noteq> [] then [SearchLike (''%'' @ trim s @ ''%'')] else [])
     @ (case f_tags f of
          None \<Rightarrow> []
        | Some ts \<Rightarrow> if 0 < length ts then map TagExists (normalizeTags (Some ts)) else [])
     @ (case f_minImportance f of None \<Rightarrow> [] | Some n \<Rightarrow> [ImportanceGe n])
     @ (case f_maxImportance f of None \<Rightarrow> [] | Some n \<Rightarrow> [ImportanceLe n])
     @ (case f_before f of None \<Rightarrow> [] | Some b \<Rightarrow> if b \<noteq> [] then [UpdatedLe b] else [])
     @ (case f_after f of None \<Rightarrow> [] | Some a \<Rightarrow> if a \<noteq> [] then [UpdatedGe a] else [])"

subsection \<open>How SQLite evaluates the clauses\<close>

text \<open>
  A truth value of SQL is true, false or NULL (\<^term>\<open>None\<close>). \<^verbatim>\<open>LIKE\<close> matches \<^verbatim>\<open>%\<close> with
  any text and \<^verbatim>\<open>_\<close> with any one character, and compares the letters A to Z
  without their case.
\<close>

definition asciiLower :: "char \<Rightarrow> char" where
  "asciiLower c = (let n = of_char c :: nat in
     if 65 \<le> n \<and> n \<le> 90 then char_of (n + 32) else c)"

fun sqlLike :: "string \<Rightarrow> string \<Rightarrow> bool" where
  "sqlLike [] [] = True"
| "sqlLike [] (c # cs) = False"
| "sqlLike (p # ps) [] = (p = CHR ''%'' \<and> sqlLike ps [])"
| "sqlLike (p # ps) (c # cs) =
     (if p = CHR ''%'' then sqlLike ps (c # cs) \<or> sqlLike (p # ps) cs
      else (p = CHR ''_'' \<or> asciiLower p = asciiLower c) \<and> sqlLike ps cs)"

fun sqlOr :: "bool option \<Rightarrow> bool option \<Rightarrow> bool option" where
  "sqlOr (Some True) b = Some True"
| "sqlOr a (Some True) = Some True"
| "sqlOr (Some False) (Some False) = Some False"
| "sqlOr a b = None"

text \<open>
  A comparison with NULL is NULL. An integer is below every text, so a text in the
  column \<^verbatim>\<open>importance\<close> is above every bound. The \<^verbatim>\<open>EXISTS\<close> terms are evaluated by
  \<open>evalSubqueries\<close> below; \<open>evalPlain\<close> is applied to the other terms only.
\<close>

fun evalPlain :: "clause \<Rightarrow> row \<Rightarrow> bool option" where
  "evalPlain (SearchLike pat) row =
     sqlOr (map_option (sqlLike pat) (r_title row)) (Some (sqlLike pat (r_content row)))"
| "evalPlain (ImportanceGe n) row =
     (case r_importance row of CNull \<Rightarrow> None | CInt i \<Rightarrow> Some (n \<le> i) | _ \<Rightarrow> Some True)"
| "evalPlain (ImportanceLe n) row =
     (case r_importance row of CNull \<Rightarrow> None | CInt i \<Rightarrow> Some (i \<le> n) | _ \<Rightarrow> Some False)"
| "evalPlain (UpdatedLe b) row = Some (r_updated_at row \<le> b)"
| "evalPlain (UpdatedGe a) row = Some (a \<le> r_updated_at row)"
| "evalPlain (TagExists t) row = Some True"

text \<open>
  \<^verbatim>\<open>EXISTS (SELECT 1 FROM json_each(memories.tags) WHERE value = @tag)\<close>. The
  comparison is that of TEXT values under the BINARY collation, which tells letter
  cases apart; a number or NULL never equals the text. On a text that SQLite does
  not read as JSON the statement fails with "malformed JSON".
\<close>

fun tagExists :: "eachRows \<Rightarrow> string \<Rightarrow> error + bool" where
  "tagExists MalformedJson t = Inl SqliteError"
| "tagExists (Rows vs) t = Inr (SqlText t \<in> set vs)"

definition isSubquery :: "clause \<Rightarrow> bool" where
  "isSubquery c = (case c of TagExists t \<Rightarrow> True | _ \<Rightarrow> False)"

fun evalSubqueries :: "clause list \<Rightarrow> row \<Rightarrow> error + bool" where
  "evalSubqueries [] row = Inr True"
| "evalSubqueries (TagExists t # cs) row =
     (case tagExists (r_tags_each row) t of
        Inl e \<Rightarrow> Inl e
      | Inr b \<Rightarrow> if b then evalSubqueries cs row else Inr False)"
| "evalSubqueries (c # cs) row = evalSubqueries cs row"

text \<open>
  \<^verbatim>\<open>WHERE c1 AND ... AND cn\<close> on one row. SQLite tests the terms without a subquery
  first and leaves a row as soon as one term is not true, so the correlated
  \<^verbatim>\<open>EXISTS\<close> terms run only on the rows that passed every other term.
\<close>

definition evalWhere :: "clause list \<Rightarrow> row \<Rightarrow> error + bool" where
  "evalWhere cs row =
     (if list_all (\<lambda>c. evalPlain c row = Some True) (filter (\<lambda>c. \<not> isSubquery c) cs)
      then evalSubqueries (filter isSubquery cs) row
      else Inr False)"

text \<open>The scan of the table: the rows on which the clause is true; an error ends it.\<close>

fun selectWhere :: "clause list \<Rightarrow> store \<Rightarrow> error + row list" where
  "selectWhere cs [] = Inr []"
| "selectWhere cs (r # rs) =
     (case evalWhere cs r of
        Inl e \<Rightarrow> Inl e
      | Inr b \<Rightarrow>
          (case selectWhere cs rs of
             Inl e \<Rightarrow> Inl e
           | Inr out \<Rightarrow> Inr (if b then r # out else out)))"

subsection \<open>Ordering and paging\<close>

text \<open>
  \<^verbatim>\<open>ORDER BY updated_at DESC\<close>. SQL leaves the order among rows with the same
  \<^verbatim>\<open>updated_at\<close> to the engine, where it depends on the query plan. The model keeps
  their storage order; no statement below says which of two such rows comes
  first.
\<close>

fun insertDesc :: "row \<Rightarrow> row list \<Rightarrow> row list" where
  "insertDesc r [] = [r]"
| "insertDesc r (x # xs) =
     (if r_updated_at x \<le> r_updated_at r then r # x # xs else x # insertDesc r xs)"

definition orderByUpdatedAtDesc :: "row list \<Rightarrow> row list" where
  "orderByUpdatedAtDesc rows = foldr insertDesc rows []"

text \<open>\<^verbatim>\<open>rows.map((row) => this.mapRow(row))\<close>, which the first TypeError leaves.\<close>

fun mapRows :: "row list \<Rightarrow> error + memoryRecord list" where
  "mapRows [] = Inr []"
| "mapRows (r # rs) =
     (case mapRow r of
        Inl e \<Rightarrow> Inl e
      | Inr m \<Rightarrow> (case mapRows rs of Inl e \<Rightarrow> Inl e | Inr ms \<Rightarrow> Inr (m # ms)))"

text \<open>
  \<^verbatim>\<open>
  const limitSafe = Math.min(Math.max(limit, 1), 200);
  const offsetSafe = Math.max(offset, 0);
  const rows = ... SELECT * FROM memories ${where} ORDER BY updated_at DESC
                   LIMIT @limit OFFSET @offset ...
  const totalRow = ... SELECT COUNT(*) as count FROM memories ${where} ...
  return { items: rows.map((row) => this.mapRow(row)), total: totalRow?.count ?? 0,
           limit: limitSafe, offset: offsetSafe };
  \<close>
  with \<^verbatim>\<open>limit = 50\<close> and \<^verbatim>\<open>offset = 0\<close> when the filter leaves them out.
\<close>

definition listMemories :: "store \<Rightarrow> filters \<Rightarrow> error + listResult" where
  "listMemories db f =
     (let cs = whereClauses f;
          limit = (case f_limit f of None \<Rightarrow> 50 | Some l \<Rightarrow> l);
          offset = (case f_offset f of None \<Rightarrow> 0 | Some n \<Rightarrow> n);
          limitSafe = min (max limit 1) 200;
          offsetSafe = max offset 0
      in case selectWhere cs db of
           Inl e \<Rightarrow> Inl e
         | Inr matching \<Rightarrow>
             (let rows = take (nat limitSafe) (drop (nat offsetSafe) (orderByUpdatedAtDesc matching))
              in case selectWhere cs db of
                   Inl e \<Rightarrow> Inl e
                 | Inr counted \<Rightarrow>
                     (case mapRows rows of
                        Inl e \<Rightarrow> Inl e
                      | Inr items \<Rightarrow>
                          Inr \<lparr> l_items = items,
                                l_total = int (length counted),
                                l_limit = limitSafe,
                                l_offset = offsetSafe \<rparr>)))"

section \<open>Predicates on rows and records\<close>

fun isString :: "json \<Rightarrow> bool" where
  "isString (JStr s) = True"
| "isString v = False"

fun theString :: "json \<Rightarrow> string" where
  "theString (JStr s) = s"
| "theString v = []"

text \<open>A JSON column that \<^verbatim>\<open>parseJson\<close> answers with its fallback.\<close>

definition unparseable :: "coltext option \<Rightarrow> bool" where
  "unparseable col = (col = None \<or> col = Some EmptyText \<or> col = Some MalformedText)"

text \<open>
  A tags column on which \<^verbatim>\<open>normalizeTags\<close> does not throw: it is unparseable, or it
  parses to a value that is falsy, has the length 0, or is an array of strings.
\<close>

definition tagsReadable :: "coltext option \<Rightarrow> bool" where
  "tagsReadable col =
     (case col of
        Some (JsonText v) \<Rightarrow>
          falsy v \<or> lengthIsZero v \<or> (case v of JArr xs \<Rightarrow> list_all isString xs | _ \<Rightarrow> False)
      | _ \<Rightarrow> True)"

text \<open>The importance of the data model: null, or an integer from 0 to 10.\<close>

definition validImportance :: "jsnum option \<Rightarrow> bool" where
  "validImportance x =
     (case x of None \<Rightarrow> True | Some (Num k) \<Rightarrow> 0 \<le> k \<and> k \<le> 10 | Some NaN \<Rightarrow> False)"

text \<open>
  A row that holds tags and importance as \<^verbatim>\<open>addMemory\<close> and \<^verbatim>\<open>updateMemory\<close> write
  them: the tags column is the JSON text of a normalized array of strings (and both
  readers see it so), the importance is NULL or an integer from 0 to 10.
\<close>

definition tagsImportanceWritten :: "row \<Rightarrow> bool" where
  "tagsImportanceWritten r =
     ((case r_tags r of
         Some (JsonText (JArr xs)) \<Rightarrow>
           list_all isString xs
           \<and> normalizeTags (Some (map theString xs)) = map theString xs
           \<and> r_tags_each r = Rows (map SqlText (map theString xs))
       | _ \<Rightarrow> False)
      \<and> (case r_importance r of CNull \<Rightarrow> True | CInt i \<Rightarrow> 0 \<le> i \<and> i \<le> 10 | _ \<Rightarrow> False))"

text \<open>
  A row as \<^verbatim>\<open>addMemory\<close> and \<^verbatim>\<open>updateMemory\<close> write it: moreover, the metadata column
  is the JSON text of an object.
\<close>

definition storeWritten :: "row \<Rightarrow> bool" where
  "storeWritten r =
     (tagsImportanceWritten r
      \<and> (case r_metadata r of Some (JsonText (JObj kvs)) \<Rightarrow> True | _ \<Rightarrow> False))"

text \<open>The tables that the operations of the store make of the empty table.\<close>

inductive reachable :: "store \<Rightarrow> bool" where
  reachable_empty: "reachable []"
| reachable_add:
    "reachable db \<Longrightarrow> addMemory db ident now input = Inr (rec, db') \<Longrightarrow> reachable db'"
| reachable_update:
    "reachable db \<Longrightarrow> updateMemory db now upd = Inr (res, db') \<Longrightarrow> reachable db'"
| reachable_delete:
    "reachable db \<Longrightarrow> deleteMemory db ident = (gone, db') \<Longrightarrow> reachable db'"

section \<open>The filters in the words of the specification\<close>







section \<open>Example data\<close>

abbreviation exampleRow :: row where
  "exampleRow \<equiv>
     \<lparr> r_id = ''m1'', r_title = None, r_content = ''remember X'', r_importance = CInt 10,
       r_tags = Some (JsonText (JArr [JStr ''Work'', JStr ''Urgent''])),
       r_tags_each = Rows [SqlText ''Work'', SqlText ''Urgent''],
       r_metadata = Some (JsonText (JObj [(''k'', JNum 1)])),
       r_created_at = ''2024-01-01T00:00:00.000Z'',
       r_updated_at = ''2024-01-01T00:00:00.000Z'' \<rparr>"

abbreviation exampleRecord :: memoryRecord where
  "exampleRecord \<equiv>
     \<lparr> m_id = ''m1'', m_title = None, m_content = ''remember X'', m_importance = Some (Num 10),
       m_tags = [''Work'', ''Urgent''],
       m_metadata = JObj [(''k'', JNum 1)],
       m_createdAt = ''2024-01-01T00:00:00.000Z'',
       m_updatedAt = ''2024-01-01T00:00:00.000Z'' \<rparr>"

abbreviation exampleRowB :: row where
  "exampleRowB \<equiv>
     \<lparr> r_id = ''m2'', r_title = Some ''Note'', r_content = ''call Y'', r_importance = CNull,
       r_tags = Some (JsonText (JArr [])),
       r_tags_each = Rows [],
       r_metadata = Some (JsonText (JObj [])),
       r_created_at = ''2024-01-02T00:00:00.000Z'',
       r_updated_at = ''2024-03-01T00:00:00.000Z'' \<rparr>"

abbreviation exampleRecordB :: memoryRecord where
  "exampleRecordB \<equiv>
     \<lparr> m_id = ''m2'', m_title = Some ''Note'', m_content = ''call Y'', m_importance = None,
       m_tags = [],
       m_metadata = JObj [],
       m_createdAt = ''2024-01-02T00:00:00.000Z'',
       m_updatedAt = ''2024-03-01T00:00:00.000Z'' \<rparr>"

abbreviation noFilters :: filters where
  "noFilters \<equiv>
     \<lparr> f_search = None, f_tags = None, f_minImportance = None, f_maxImportance = None,
       f_limit = None, f_offset = None, f_before = None, f_after = None \<rparr>"


abbreviation scenarioInput :: createInput where
  "scenarioInput \<equiv>
     \<lparr> c_title = None, c_content = ''remember X'', c_importance = Some 20,
       c_tags = Some [''Work'', ''work'', ''Urgent''], c_metadata = None \<rparr>"

abbreviation scenarioRow :: row where
  "scenarioRow \<equiv>
     \<lparr> r_id = ''m1'', r_title = None, r_content = ''remember X'', r_importance = CInt 10,
       r_tags = Some (JsonText (JArr [JStr ''Work'', JStr ''Urgent''])),
       r_tags_each = Rows [SqlText ''Work'', SqlText ''Urgent''],
       r_metadata = Some (JsonText (JObj [])),
       r_created_at = ''2024-01-01T00:00:00.000Z'',
       r_updated_at = ''2024-01-01T00:00:00.000Z'' \<rparr>"

abbreviation scenarioRecord :: memoryRecord where
  "scenarioRecord \<equiv>
     \<lparr> m_id = ''m1'', m_title = None, m_content = ''remember X'', m_importance = Some (Num 10),
       m_tags = [''Work'', ''Urgent''],
       m_metadata = JObj [],
       m_createdAt = ''2024-01-01T00:00:00.000Z'',
       m_updatedAt = ''2024-01-01T00:00:00.000Z'' \<rparr>"

section \<open>Properties of tag normalization\<close>

lemma trim_ends:
  "trim s = [] \<or> (\<not> isWhiteSpace (hd (trim s)) \<and> \<not> isWhiteSpace (last (trim s)))"
proof (cases "trim s = []")
  case True
  then show ?thesis by simp
next
  case False
  define u where "u = dropWhile isWhiteSpace s"
  define v where "v = dropWhile isWhiteSpace (rev u)"
  have t: "trim s = rev v" by (simp add: trim_def u_def v_def)
  with False have vne: "v \<noteq> []" by simp
  then have hv: "\<not> isWhiteSpace (hd v)" unfolding v_def by (rule hd_dropWhile)
  from vne have "rev u \<noteq> []" unfolding v_def by auto
  then have une: "u \<noteq> []" by simp
  then have hu: "\<not> isWhiteSpace (hd u)" unfolding u_def by (rule hd_dropWhile)
  have "rev u = takeWhile isWhiteSpace (rev u) @ v"
    unfolding v_def by simp
  then have "u = rev v @ rev (takeWhile isWhiteSpace (rev u))"
    by (metis rev_append rev_rev_ident)
  with vne have "hd u = hd (rev v)"
    by (metis hd_append2 rev_is_Nil_conv)
  with hu have "\<not> isWhiteSpace (hd (rev v))" by simp
  moreover from vne hv have "\<not> isWhiteSpace (last (rev v))" by (simp add: last_rev)
  ultimately show ?thesis using t by simp
qed

lemma trim_fixed:
  assumes "s = [] \<or> (\<not> isWhiteSpace (hd s) \<and> \<not> isWhiteSpace (last s))"
  shows "trim s = s"
proof (cases "s = []")
  case True
  then show ?thesis by (simp add: trim_def)
next
  case False
  with assms have h: "\<not> isWhiteSpace (hd s)" and l: "\<not> isWhiteSpace (last s)" by auto
  from False h have a: "dropWhile isWhiteSpace s = s"
    by (cases s) auto
  from False l have b: "dropWhile isWhiteSpace (rev s) = rev s"
    by (cases "rev s") (auto simp: last_rev [symmetric] hd_rev)
  show ?thesis by (simp add: trim_def a b)
qed

lemma trim_idem: "trim (trim s) = trim s"
  by (rule trim_fixed) (rule trim_ends)

lemma filterSeen_subset: "set (filterSeen seen ts) \<subseteq> set ts"
  by (induction ts arbitrary: seen) (auto simp: Let_def)

lemma filterSeen_nonempty: "[] \<notin> set (filterSeen seen ts)"
  by (induction ts arbitrary: seen) (auto simp: Let_def)

lemma filterSeen_fresh: "t \<in> set (filterSeen seen ts) \<Longrightarrow> toLowerCase t \<notin> seen"
  by (induction ts arbitrary: seen) (auto simp: Let_def split: if_splits)

lemma filterSeen_distinct: "distinct (map toLowerCase (filterSeen seen ts))"
proof (induction ts arbitrary: seen)
  case Nil
  then show ?case by simp
next
  case (Cons t ts)
  have "toLowerCase t \<notin> toLowerCase ` set (filterSeen (insert (toLowerCase t) seen) ts)"
    using filterSeen_fresh [of _ "insert (toLowerCase t) seen" ts] by fastforce
  then show ?case
    using Cons.IH by (simp add: Let_def)
qed

lemma filterSeen_again:
  "seen' \<subseteq> seen \<Longrightarrow> filterSeen seen' (filterSeen seen ts) = filterSeen seen ts"
proof (induction ts arbitrary: seen seen')
  case Nil
  then show ?case by simp
next
  case (Cons t ts)
  show ?case
  proof (cases "t = [] \<or> toLowerCase t \<in> seen")
    case True
    then show ?thesis using Cons.IH [OF Cons.prems] by (auto simp: Let_def)
  next
    case False
    then have "toLowerCase t \<notin> seen'" using Cons.prems by auto
    moreover have "insert (toLowerCase t) seen' \<subseteq> insert (toLowerCase t) seen"
      using Cons.prems by auto
    ultimately show ?thesis using False Cons.IH by (simp add: Let_def)
  qed
qed

lemma map_trim_filterSeen:
  "map trim (filterSeen seen (map trim ts)) = filterSeen seen (map trim ts)"
proof -
  have "\<forall>t \<in> set (filterSeen seen (map trim ts)). trim t = t"
    using filterSeen_subset [of seen "map trim ts"] trim_idem by auto
  then show ?thesis by (simp add: map_idI)
qed

lemma normalizeTags_again: "normalizeTags (Some (normalizeTags tags)) = normalizeTags tags"
proof (cases tags)
  case None
  then show ?thesis by (simp add: normalizeTags_def)
next
  case (Some ts)
  show ?thesis
  proof (cases "filterSeen {} (map trim ts) = [] \<or> ts = []")
    case True
    then show ?thesis using Some by (auto simp: normalizeTags_def)
  next
    case False
    then show ?thesis
      using Some map_trim_filterSeen [of "{}" ts] filterSeen_again [of "{}" "{}" "map trim ts"]
      by (simp add: normalizeTags_def)
  qed
qed

lemma normalizeTags_example:
  "normalizeTags (Some [''Foo'', ''foo'', '' Bar '', '''']) = [''Foo'', ''Bar'']"
  by code_simp

text \<open>
  Claim C7. Tag normalization is idempotent: normalizing the result of a
  normalization gives that result again, for every tag sequence (and for an absent
  one); and the tags Foo, foo, Bar between two spaces, and the empty string
  normalize to Foo, Bar.
\<close>

theorem normalizeTags_idempotent:
  "normalizeTags (Some (normalizeTags tags)) = normalizeTags tags
   \<and> normalizeTags (Some [''Foo'', ''foo'', '' Bar '', '''']) = [''Foo'', ''Bar'']"
  using normalizeTags_again normalizeTags_example by simp

theorem normalizeTags_idempotent_witness:
  "normalizeTags (Some (normalizeTags (Some [''b '', ''B'', '' a''])))
     = normalizeTags (Some [''b '', ''B'', '' a''])
   \<and> normalizeTags (Some [''b '', ''B'', '' a'']) = [''b'', ''a'']"
proof -
  have "normalizeTags (Some [''b '', ''B'', '' a'']) = [''b'', ''a'']" by code_simp
  then show ?thesis
    using normalizeTags_idempotent [of "Some [''b '', ''B'', '' a'']"] by simp
qed

section \<open>Writing a row and reading it back\<close>

lemma trimAll_strings: "trimAll (map JStr ts) = Inr (map trim ts)"
  by (induction ts) auto

lemma normalizeTagsUntyped_strings:
  "normalizeTagsUntyped (JArr (map JStr ts)) = Inr (normalizeTags (Some ts))"
  by (simp add: normalizeTagsUntyped_def normalizeTags_def trimAll_strings)

lemma parseJson_stringify: "parseJson (Some (JSON_stringify v)) d = v"
  by (simp add: parseJson_def JSON_stringify_def)

lemma parseJson_serializeJson:
  "parseJson (Some (serializeJson val)) d =
     (case val of None \<Rightarrow> JObj [] | Some JNull \<Rightarrow> JObj [] | Some v \<Rightarrow> v)"
  by (simp add: serializeJson_def parseJson_stringify)

lemma clampImportance_idem: "clampImportance (clampImportance x) = clampImportance x"
  by (cases x) auto

lemma readImportance_bind_clamp:
  "readImportance (bindImportance (Some (clampImportance (Num n)))) = Some (clampImportance (Num n))"
  by simp

lemma selectById_append_new:
  "ident \<notin> set (map r_id db) \<Longrightarrow> r_id row = ident \<Longrightarrow> selectById (db @ [row]) ident = Some row"
  by (induction db) (auto simp: selectById_def)

text \<open>
  Claim C6. Round trip: when the identifier is not yet in the table, create succeeds,
  and get on the identifier of the record it returned gives exactly that record
  (same id, title, content, importance, tags, metadata, createdAt and updatedAt).
\<close>

theorem get_after_create:
  assumes "ident \<notin> set (map r_id db)"
  shows "\<exists>rec db'. addMemory db ident now input = Inr (rec, db')
           \<and> m_id rec = ident
           \<and> getMemory db' (m_id rec) = Inr (Some rec)"
proof -
  define imp where "imp = map_option (\<lambda>n. clampImportance (Num n)) (c_importance input)"
  define row where "row =
             \<lparr> r_id = ident,
               r_title = c_title input,
               r_content = c_content input,
               r_importance = bindImportance imp,
               r_tags = Some (JSON_stringify (JArr (map JStr (normalizeTags (c_tags input))))),
               r_tags_each = Rows (map SqlText (normalizeTags (c_tags input))),
               r_metadata = Some (serializeJson (map_option JObj (c_metadata input))),
               r_created_at = now,
               r_updated_at = now \<rparr>"
  define rec where "rec =
             \<lparr> m_id = ident,
               m_title = c_title input,
               m_content = c_content input,
               m_importance = imp,
               m_tags = normalizeTags (c_tags input),
               m_metadata = (case c_metadata input of None \<Rightarrow> JObj [] | Some kvs \<Rightarrow> JObj kvs),
               m_createdAt = now,
               m_updatedAt = now \<rparr>"
  have rid: "r_id row = ident" by (simp add: row_def)
  have ins: "insertRow db row = Inr (db @ [row])"
    using assms by (simp add: insertRow_def rid)
  have add: "addMemory db ident now input = Inr (rec, db @ [row])"
    unfolding addMemory_def Let_def imp_def [symmetric] row_def [symmetric] rec_def [symmetric]
    by (simp add: ins)
  have sel: "selectById (db @ [row]) ident = Some row"
    using assms rid by (rule selectById_append_new)
  have "readImportance (bindImportance imp) = imp"
    by (cases "c_importance input") (simp_all add: imp_def)
  moreover have "parseJson (r_metadata row) (JObj []) = m_metadata rec"
    by (cases "c_metadata input") (simp_all add: row_def rec_def parseJson_serializeJson)
  moreover have "normalizeTagsUntyped (parseJson (r_tags row) (JArr [])) = Inr (m_tags rec)"
    by (simp add: row_def rec_def parseJson_stringify normalizeTagsUntyped_strings
        normalizeTags_again)
  ultimately have "mapRow row = Inr rec"
    by (simp add: mapRow_def) (simp add: row_def rec_def)
  then have "getMemory (db @ [row]) ident = Inr (Some rec)"
    by (simp add: getMemory_def sel)
  moreover have "m_id rec = ident" by (simp add: rec_def)
  ultimately show ?thesis using add by simp
qed


theorem get_after_create_witness:
  "''m1'' \<notin> set (map r_id [])
   \<and> (\<exists>rec db'.
         addMemory [] ''m1'' ''2024-01-01T00:00:00.000Z''
           \<lparr> c_title = None, c_content = ''remember X'', c_importance = Some 20,
             c_tags = Some [''Work'', ''work'', ''Urgent''], c_metadata = None \<rparr>
           = Inr (rec, db')
         \<and> m_id rec = ''m1''
         \<and> getMemory db' (m_id rec) = Inr (Some rec))"
  using get_after_create [of "''m1''" "[]" "''2024-01-01T00:00:00.000Z''"
      "\<lparr> c_title = None, c_content = ''remember X'', c_importance = Some 20,
         c_tags = Some [''Work'', ''work'', ''Urgent''], c_metadata = None \<rparr>"]
  by simp

section \<open>Partial update\<close>

lemma trimAll_trimmed: "trimAll xs = Inr out \<Longrightarrow> \<forall>t \<in> set out. trim t = t"
proof (induction xs arbitrary: out rule: trimAll.induct)
  case 1
  then show ?case by simp
next
  case (2 s rest)
  then show ?case by (auto simp: trim_idem split: sum.splits)
qed simp_all

lemma map_trim_filterSeen_fixed:
  "\<forall>t \<in> set ts. trim t = t \<Longrightarrow> map trim (filterSeen seen ts) = filterSeen seen ts"
proof -
  assume "\<forall>t \<in> set ts. trim t = t"
  then have "\<forall>t \<in> set (filterSeen seen ts). trim t = t"
    using filterSeen_subset [of seen ts] by blast
  then show ?thesis by (simp add: map_idI)
qed

lemma normalizeTags_filterSeen:
  assumes "\<forall>t \<in> set ts. trim t = t"
  shows "normalizeTags (Some (filterSeen {} ts)) = filterSeen {} ts"
  using map_trim_filterSeen_fixed [OF assms, of "{}"] filterSeen_again [of "{}" "{}" ts]
  by (simp add: normalizeTags_def)

lemma normalizeTagsUntyped_normalized:
  assumes "normalizeTagsUntyped v = Inr ts"
  shows "normalizeTags (Some ts) = ts"
proof (cases "falsy v \<or> lengthIsZero v")
  case True
  with assms show ?thesis by (simp add: normalizeTagsUntyped_def normalizeTags_def)
next
  case False
  with assms obtain xs trimmed where "v = JArr xs" "trimAll xs = Inr trimmed"
    "ts = filterSeen {} trimmed"
    by (auto simp: normalizeTagsUntyped_def split: json.splits sum.splits)
  then show ?thesis using trimAll_trimmed normalizeTags_filterSeen by blast
qed

lemma mapRow_tags_normalized: "mapRow row = Inr m \<Longrightarrow> normalizeTags (Some (m_tags m)) = m_tags m"
  by (auto simp: mapRow_def split: sum.splits dest: normalizeTagsUntyped_normalized)

lemma validImportance_clamped:
  "validImportance x \<Longrightarrow> map_option clampImportance x = x \<and> x \<noteq> Some NaN"
  by (auto simp: validImportance_def split: option.splits jsnum.splits)

lemma selectById_Some: "selectById db ident = Some row \<Longrightarrow> r_id row = ident \<and> row \<in> set db"
  by (auto simp: selectById_def find_Some_iff)


lemma getMemory_Some:
  assumes "getMemory db ident = Inr (Some m)"
  obtains row where "selectById db ident = Some row" "mapRow row = Inr m"
  using assms by (auto simp: getMemory_def split: option.splits sum.splits)

lemma mapRow_fields:
  assumes "mapRow row = Inr m"
  shows "m_id m = r_id row" "m_title m = r_title row" "m_content m = r_content row"
    "m_importance m = readImportance (r_importance row)"
    "m_metadata m = parseJson (r_metadata row) (JObj [])"
    "m_createdAt m = r_created_at row" "m_updatedAt m = r_updated_at row"
  using assms by (auto simp: mapRow_def split: sum.splits)


lemma readImportance_bindImportance:
  "map_option clampImportance x = x \<Longrightarrow> x \<noteq> Some NaN \<Longrightarrow>
     readImportance (bindImportance x) = x"
  by (cases x rule: bindImportance.cases) simp_all



lemma omitted_importance_kept:
  assumes "validImportance x"
  shows "map_option clampImportance x = x"
    and "readImportance (bindImportance (map_option clampImportance x)) = x"
  using assms validImportance_clamped [OF assms]
    readImportance_bindImportance [of "map_option clampImportance x"]
  by (simp_all add: option.map_comp comp_def clampImportance_idem)

section \<open>Rows that the store wrote\<close>

lemma strings_of_isString: "list_all isString xs \<Longrightarrow> xs = map JStr (map theString xs)"
proof (induction xs)
  case Nil
  then show ?case by simp
next
  case (Cons a xs)
  then show ?case by (cases a) auto
qed

lemma tagsImportanceWritten_cases:
  assumes "tagsImportanceWritten r"
  obtains ts where
    "r_tags r = Some (JsonText (JArr (map JStr ts)))"
    "r_tags_each r = Rows (map SqlText ts)"
    "normalizeTags (Some ts) = ts"
    "r_importance r = CNull \<or> (\<exists>i. r_importance r = CInt i \<and> 0 \<le> i \<and> i \<le> 10)"
proof -
  from assms obtain xs where x: "r_tags r = Some (JsonText (JArr xs))" "list_all isString xs"
    "normalizeTags (Some (map theString xs)) = map theString xs"
    "r_tags_each r = Rows (map SqlText (map theString xs))"
    by (auto simp: tagsImportanceWritten_def split: option.splits coltext.splits json.splits)
  from assms have i: "r_importance r = CNull \<or> (\<exists>i. r_importance r = CInt i \<and> 0 \<le> i \<and> i \<le> 10)"
    by (auto simp: tagsImportanceWritten_def split: colval.splits)
  from x(1,2) have "r_tags r = Some (JsonText (JArr (map JStr (map theString xs))))"
    using strings_of_isString by simp
  then show thesis using x(4,3) i by (rule that)
qed

lemma mapRow_tagsImportanceWritten:
  assumes "tagsImportanceWritten r"
  obtains m where "mapRow r = Inr m"
    "r_tags r = Some (JsonText (JArr (map JStr (m_tags m))))"
    "r_tags_each r = Rows (map SqlText (m_tags m))"
    "validImportance (m_importance m)"
    "m_importance m = None \<longleftrightarrow> r_importance r = CNull"
    "\<And>i. m_importance m = Some (Num i) \<longleftrightarrow> r_importance r = CInt i"
proof -
  from assms obtain ts where t: "r_tags r = Some (JsonText (JArr (map JStr ts)))"
    "r_tags_each r = Rows (map SqlText ts)" "normalizeTags (Some ts) = ts"
    and i: "r_importance r = CNull \<or> (\<exists>i. r_importance r = CInt i \<and> 0 \<le> i \<and> i \<le> 10)"
    by (rule tagsImportanceWritten_cases)
  have tags: "normalizeTagsUntyped (parseJson (r_tags r) (JArr [])) = Inr ts"
    using t by (simp add: parseJson_def normalizeTagsUntyped_strings)
  then obtain m where m: "mapRow r = Inr m" and mt: "m_tags m = ts"
    by (simp add: mapRow_def)
  have f: "m_importance m = readImportance (r_importance r)"
    using mapRow_fields [OF m] by simp
  show thesis
  proof (rule that [OF m])
    show "r_tags r = Some (JsonText (JArr (map JStr (m_tags m))))" using t mt by simp
    show "r_tags_each r = Rows (map SqlText (m_tags m))" using t mt by simp
    show "validImportance (m_importance m)" using i f by (auto simp: validImportance_def)
    show "m_importance m = None \<longleftrightarrow> r_importance r = CNull" using i f by auto
    show "m_importance m = Some (Num i) \<longleftrightarrow> r_importance r = CInt i" for i using i f by auto
  qed
qed

subsection \<open>What the store writes\<close>

lemma storeWritten_metadata:
  assumes "storeWritten r"
  obtains kvs where "r_metadata r = Some (JsonText (JObj kvs))"
  using assms by (auto simp: storeWritten_def split: option.splits coltext.splits json.splits)

lemma list_all_isString: "list_all isString (map JStr ts)"
  by (induction ts) auto

lemma theString_JStr: "map (theString \<circ> JStr) ts = ts"
  by (induction ts) auto

lemma bindImportance_written:
  "bindImportance (map_option clampImportance x) = CNull
   \<or> (\<exists>i. bindImportance (map_option clampImportance x) = CInt i \<and> 0 \<le> i \<and> i \<le> 10)"
  by (cases x rule: bindImportance.cases) auto

lemma storeWritten_row:
  assumes "normalizeTags (Some ts) = ts"
    and "imp = CNull \<or> (\<exists>i. imp = CInt i \<and> 0 \<le> i \<and> i \<le> 10)"
  shows "storeWritten \<lparr> r_id = i, r_title = t, r_content = c, r_importance = imp,
            r_tags = Some (JSON_stringify (JArr (map JStr ts))),
            r_tags_each = Rows (map SqlText ts),
            r_metadata = Some (JsonText (JObj kvs)),
            r_created_at = ca, r_updated_at = ua \<rparr>"
  using assms
  by (auto simp: storeWritten_def tagsImportanceWritten_def JSON_stringify_def list_all_isString
      theString_JStr)

lemma serializeJson_object:
  "serializeJson (map_option JObj kvs) = JsonText (JObj (case kvs of None \<Rightarrow> [] | Some e \<Rightarrow> e))"
  "serializeJson (Some (JObj e)) = JsonText (JObj e)"
  by (cases kvs) (simp_all add: serializeJson_def JSON_stringify_def)

lemma addMemory_storeWritten:
  assumes "addMemory db ident now input = Inr (rec, db')" and "list_all storeWritten db"
  shows "list_all storeWritten db'"
proof -
  define row where "row =
     \<lparr> r_id = ident, r_title = c_title input, r_content = c_content input,
       r_importance = bindImportance (map_option clampImportance (map_option Num (c_importance input))),
       r_tags = Some (JSON_stringify (JArr (map JStr (normalizeTags (c_tags input))))),
       r_tags_each = Rows (map SqlText (normalizeTags (c_tags input))),
       r_metadata = Some (JsonText (JObj (case c_metadata input of None \<Rightarrow> [] | Some e \<Rightarrow> e))),
       r_created_at = now, r_updated_at = now \<rparr>"
  have "storeWritten row"
    unfolding row_def
    by (rule storeWritten_row [OF normalizeTags_again bindImportance_written])
  moreover from assms(1) have "db' = db @ [row]"
    by (auto simp: addMemory_def Let_def insertRow_def row_def serializeJson_object
        option.map_comp comp_def split: if_splits simp del: clampImportance.simps)
  ultimately show ?thesis
    using assms(2) by simp
qed

lemma updateMemory_storeWritten:
  assumes "updateMemory db now input = Inr (res, db')" and "list_all storeWritten db"
  shows "list_all storeWritten db'"
proof (cases "getMemory db (u_id input)")
  case (Inl e)
  with assms show ?thesis by (simp add: updateMemory_def)
next
  case (Inr found)
  show ?thesis
  proof (cases found)
    case None
    with Inr assms show ?thesis by (simp add: updateMemory_def)
  next
    case (Some existing)
    from Inr Some obtain row where sel: "selectById db (u_id input) = Some row"
      and mr: "mapRow row = Inr existing"
      by (auto elim: getMemory_Some)
    from sel assms(2) have "storeWritten row"
      by (auto simp: list_all_iff dest: selectById_Some)
    then obtain kvs where "r_metadata row = Some (JsonText (JObj kvs))"
      by (rule storeWritten_metadata)
    then have ex: "m_metadata existing = JObj kvs"
      using mapRow_fields(5) [OF mr] by (simp add: parseJson_def)
    define nextTags where "nextTags =
      (case u_tags input of
         Omitted \<Rightarrow> m_tags existing
       | Null \<Rightarrow> normalizeTags None
       | Value ts \<Rightarrow> normalizeTags (Some ts))"
    define nextMetadata where "nextMetadata =
      (case u_metadata input of
         Omitted \<Rightarrow> m_metadata existing | Null \<Rightarrow> JObj [] | Value kvs \<Rightarrow> JObj kvs)"
    have tagsn: "normalizeTags (Some nextTags) = nextTags"
      unfolding nextTags_def using mapRow_tags_normalized [OF mr]
      by (cases "u_tags input") (simp_all add: normalizeTags_again)
    obtain e where e: "nextMetadata = JObj e"
      unfolding nextMetadata_def using ex by (cases "u_metadata input") simp_all
    have one: "storeWritten (r \<lparr> r_title := t, r_content := c,
                 r_importance := bindImportance (map_option clampImportance x),
                 r_tags := Some (JSON_stringify (JArr (map JStr nextTags))),
                 r_tags_each := Rows (map SqlText nextTags),
                 r_metadata := Some (serializeJson (Some nextMetadata)),
                 r_updated_at := now \<rparr>)" for r t c x
      using storeWritten_row [OF tagsn bindImportance_written [of x], of "r_id r" t c e
          "r_created_at r" now]
      by (cases r) (simp add: e serializeJson_object)
    define g where "g = (\<lambda>r :: row. r \<lparr> r_title :=
                     (case u_title input of
                        Omitted \<Rightarrow> m_title existing | Null \<Rightarrow> None | Value t \<Rightarrow> Some t),
                   r_content :=
                     (case u_content input of None \<Rightarrow> m_content existing | Some c \<Rightarrow> c),
                   r_importance := bindImportance (map_option clampImportance
                     (case u_importance input of
                        Omitted \<Rightarrow> m_importance existing | Null \<Rightarrow> None
                      | Value n \<Rightarrow> Some (Num n))),
                   r_tags := Some (JSON_stringify (JArr (map JStr nextTags))),
                   r_tags_each := Rows (map SqlText nextTags),
                   r_metadata := Some (serializeJson (Some nextMetadata)),
                   r_updated_at := now \<rparr>)"
    have g: "storeWritten (g r)" for r
      unfolding g_def by (rule one)
    from assms(1) Inr Some
    have db': "db' = map (\<lambda>r. if r_id r = u_id input then g r else r) db"
      unfolding g_def nextTags_def nextMetadata_def
      by (auto simp: updateMemory_def Let_def)
    show ?thesis
      unfolding db' using assms(2) g by (induction db) simp_all
  qed
qed

lemma deleteMemory_storeWritten:
  "list_all storeWritten db \<Longrightarrow> deleteMemory db ident = (gone, db') \<Longrightarrow> list_all storeWritten db'"
  by (auto simp: deleteMemory_def list_all_iff)

lemma reachable_storeWritten: "reachable db \<Longrightarrow> list_all storeWritten db"
proof (induction rule: reachable.induct)
  case reachable_empty
  then show ?case by simp
next
  case (reachable_add db ident now input rec db')
  then show ?case by (auto intro: addMemory_storeWritten)
next
  case (reachable_update db now upd res db')
  then show ?case by (auto intro: updateMemory_storeWritten)
next
  case (reachable_delete db ident gone db')
  then show ?case by (auto intro: deleteMemory_storeWritten)
qed

lemma reachable_tagsImportanceWritten: "reachable db \<Longrightarrow> list_all tagsImportanceWritten db"
  using reachable_storeWritten [of db] by (auto simp: list_all_iff storeWritten_def)


lemma reachable_get:
  assumes "reachable db"
  shows "\<exists>found. getMemory db ident = Inr found"
proof (cases "selectById db ident")
  case None
  then show ?thesis by (simp add: getMemory_def)
next
  case (Some row)
  with reachable_tagsImportanceWritten [OF assms] have "tagsImportanceWritten row"
    by (auto simp: list_all_iff dest: selectById_Some)
  then obtain m where "mapRow row = Inr m"
    by (rule mapRow_tagsImportanceWritten)
  with Some show ?thesis by (simp add: getMemory_def)
qed




section \<open>Partial update: omitted and cleared fields\<close>







section \<open>Listing: total, page and order\<close>

lemma selectWhere_filter:
  "selectWhere cs db = Inr out \<Longrightarrow> out = filter (\<lambda>r. evalWhere cs r = Inr True) db"
  by (induction db arbitrary: out) (auto split: sum.splits)

lemma set_insertDesc: "set (insertDesc r xs) = insert r (set xs)"
  by (induction xs) auto


lemma sorted_insertDesc:
  "sorted_wrt (\<lambda>a b. r_updated_at b \<le> r_updated_at a) xs \<Longrightarrow>
   sorted_wrt (\<lambda>a b. r_updated_at b \<le> r_updated_at a) (insertDesc r xs)"
proof (induction xs)
  case Nil
  then show ?case by simp
next
  case (Cons x xs)
  show ?case
  proof (cases "r_updated_at x \<le> r_updated_at r")
    case True
    then have "\<forall>y \<in> set xs. r_updated_at y \<le> r_updated_at r"
      using Cons.prems by (auto intro: order_trans)
    with True Cons.prems show ?thesis by simp
  next
    case False
    then have "r_updated_at r \<le> r_updated_at x" by simp
    with False Cons show ?thesis by (auto simp: set_insertDesc)
  qed
qed


lemma set_orderByUpdatedAtDesc: "set (orderByUpdatedAtDesc rows) = set rows"
  by (induction rows) (auto simp: orderByUpdatedAtDesc_def set_insertDesc)

lemma sorted_orderByUpdatedAtDesc:
  "sorted_wrt (\<lambda>a b. r_updated_at b \<le> r_updated_at a) (orderByUpdatedAtDesc rows)"
  by (induction rows) (auto simp: orderByUpdatedAtDesc_def sorted_insertDesc)

lemma mapRows_updatedAt: "mapRows rows = Inr ms \<Longrightarrow> map m_updatedAt ms = map r_updated_at rows"
  by (induction rows arbitrary: ms) (auto simp: mapRow_def split: sum.splits)


lemma listMemories_Inr:
  assumes "listMemories db f = Inr res"
  obtains page where
    "mapRows page = Inr (l_items res)"
    "page = take (nat (l_limit res)) (drop (nat (l_offset res))
              (orderByUpdatedAtDesc (filter (\<lambda>r. evalWhere (whereClauses f) r = Inr True) db)))"
    "l_total res = int (length (filter (\<lambda>r. evalWhere (whereClauses f) r = Inr True) db))"
    "l_limit res = min (max (case f_limit f of None \<Rightarrow> 50 | Some l \<Rightarrow> l) 1) 200"
    "l_offset res = max (case f_offset f of None \<Rightarrow> 0 | Some n \<Rightarrow> n) 0"
proof -
  from assms obtain matching where m: "selectWhere (whereClauses f) db = Inr matching"
    by (auto simp: listMemories_def Let_def split: sum.splits)
  then have meq: "matching = filter (\<lambda>r. evalWhere (whereClauses f) r = Inr True) db"
    by (rule selectWhere_filter)
  show thesis
    using assms m
    by (intro that [of "take (nat (l_limit res)) (drop (nat (l_offset res))
              (orderByUpdatedAtDesc matching))"])
      (auto simp: listMemories_def Let_def meq [symmetric] split: sum.splits)
qed

subsection \<open>The clauses on rows that the store wrote\<close>























lemma mapRows_set:
  "mapRows rows = Inr ms \<Longrightarrow> m \<in> set ms \<Longrightarrow> \<exists>r \<in> set rows. mapRow r = Inr m"
  by (induction rows arbitrary: ms) (auto split: sum.splits)








lemma list_example_all:
  "listMemories [exampleRow, exampleRowB] noFilters =
     Inr \<lparr> l_items = [exampleRecordB, exampleRecord], l_total = 2, l_limit = 50, l_offset = 0 \<rparr>"
  by code_simp

lemma list_example_min:
  "listMemories [exampleRow, exampleRowB] (noFilters \<lparr> f_minImportance := Some 5 \<rparr>) =
     Inr \<lparr> l_items = [exampleRecord], l_total = 1, l_limit = 50, l_offset = 0 \<rparr>"
  by code_simp

lemma list_example_page:
  "listMemories [exampleRow, exampleRowB] (noFilters \<lparr> f_limit := Some 1, f_offset := Some (-3) \<rparr>) =
     Inr \<lparr> l_items = [exampleRecordB], l_total = 2, l_limit = 1, l_offset = 0 \<rparr>"
  by code_simp

lemma list_example_tag_lower:
  "listMemories [exampleRow, exampleRowB]
     (noFilters \<lparr> f_tags := Some [''urgent''], f_minImportance := Some 5 \<rparr>) =
     Inr \<lparr> l_items = [], l_total = 0, l_limit = 50, l_offset = 0 \<rparr>"
  by code_simp

lemma list_example_tag_exact:
  "listMemories [exampleRow, exampleRowB]
     (noFilters \<lparr> f_tags := Some [''Urgent''], f_minImportance := Some 5 \<rparr>) =
     Inr \<lparr> l_items = [exampleRecord], l_total = 1, l_limit = 50, l_offset = 0 \<rparr>"
  by code_simp

lemma list_example_search:
  "listMemories [exampleRow, exampleRowB]
     (noFilters \<lparr> f_search := Some '' REMEMBER '' \<rparr>) =
     Inr \<lparr> l_items = [exampleRecord], l_total = 1, l_limit = 50, l_offset = 0 \<rparr>"
  by code_simp

lemma sorted_page:
  "sorted_wrt (\<lambda>a b. r_updated_at b \<le> r_updated_at a)
     (take n (drop k (orderByUpdatedAtDesc rows)))"
  by (intro sorted_wrt_take sorted_wrt_drop sorted_orderByUpdatedAtDesc)

text \<open>
  Claim C9. In the items of a list result, a record that comes before another has an
  updatedAt that is at least the other's, in the order of strings.
\<close>

theorem list_ordered_by_updatedAt:
  assumes "listMemories db f = Inr res"
    and "i < j" and "j < length (l_items res)"
  shows "m_updatedAt (l_items res ! j) \<le> m_updatedAt (l_items res ! i)"
proof -
  from assms(1) obtain page where p: "mapRows page = Inr (l_items res)"
    and pg: "page = take (nat (l_limit res)) (drop (nat (l_offset res))
              (orderByUpdatedAtDesc (filter (\<lambda>r. evalWhere (whereClauses f) r = Inr True) db)))"
    by (rule listMemories_Inr)
  have "sorted_wrt (\<lambda>a b. r_updated_at b \<le> r_updated_at a) page"
    unfolding pg by (rule sorted_page)
  then have "sorted_wrt (\<lambda>a b. b \<le> a) (map r_updated_at page)"
    by (simp add: sorted_wrt_map)
  then have "sorted_wrt (\<lambda>a b. b \<le> a) (map m_updatedAt (l_items res))"
    using mapRows_updatedAt [OF p] by simp
  then have "map m_updatedAt (l_items res) ! j \<le> map m_updatedAt (l_items res) ! i"
    using assms(2,3) by (simp add: sorted_wrt_iff_nth_less del: nth_map)
  then show ?thesis
    using assms(2,3) by simp
qed

theorem list_ordered_by_updatedAt_witness:
  "listMemories [exampleRow, exampleRowB] noFilters =
     Inr \<lparr> l_items = [exampleRecordB, exampleRecord], l_total = 2, l_limit = 50, l_offset = 0 \<rparr>
   \<and> (0::nat) < 1 \<and> 1 < length [exampleRecordB, exampleRecord]
   \<and> m_updatedAt ([exampleRecordB, exampleRecord] ! 1)
       \<le> m_updatedAt ([exampleRecordB, exampleRecord] ! 0)"
  using list_example_all
    list_ordered_by_updatedAt [OF list_example_all, of 0 1]
  by simp

lemma selectWhere_skip:
  "(\<And>r. r \<in> set db \<Longrightarrow> \<not> P r \<Longrightarrow> evalWhere cs r = Inr False) \<Longrightarrow>
   selectWhere cs (filter P db) = selectWhere cs db"
  by (induction db) (auto split: sum.splits)

lemma evalWhere_null_importance:
  assumes "ImportanceGe n \<in> set cs \<or> ImportanceLe n \<in> set cs"
    and "r_importance r = CNull"
  shows "evalWhere cs r = Inr False"
proof -
  from assms(1) obtain c where c: "c \<in> set cs" "c = ImportanceGe n \<or> c = ImportanceLe n"
    by blast
  then have "c \<in> set (filter (\<lambda>c. \<not> isSubquery c) cs)"
    by (auto simp: isSubquery_def)
  moreover from c assms(2) have "evalPlain c r \<noteq> Some True"
    by auto
  ultimately have "\<not> list_all (\<lambda>c. evalPlain c r = Some True) (filter (\<lambda>c. \<not> isSubquery c) cs)"
    unfolding list_all_iff by blast
  then show ?thesis by (simp add: evalWhere_def)
qed

lemma whereClauses_bounds:
  "f_minImportance f = Some n \<Longrightarrow> ImportanceGe n \<in> set (whereClauses f)"
  "f_maxImportance f = Some n \<Longrightarrow> ImportanceLe n \<in> set (whereClauses f)"
  by (simp_all add: whereClauses_def)

lemma listMemories_cong:
  assumes "selectWhere (whereClauses f) db = selectWhere (whereClauses f) db'"
  shows "listMemories db f = listMemories db' f"
  unfolding listMemories_def Let_def assms by (rule refl)

text \<open>
  Claim C10. When the filter gives minImportance or maxImportance (or both), the rows
  whose importance is NULL do not count: the result of list, items and total, is the
  one on the table without these rows; no item has a null importance, and total
  counts only matching rows with a non-null importance.
\<close>

theorem list_excludes_null_importance:
  assumes "f_minImportance f \<noteq> None \<or> f_maxImportance f \<noteq> None"
  shows "listMemories db f = listMemories (filter (\<lambda>r. r_importance r \<noteq> CNull) db) f
         \<and> (\<forall>res. listMemories db f = Inr res \<longrightarrow>
               (\<forall>m \<in> set (l_items res). m_importance m \<noteq> None)
               \<and> l_total res =
                   int (length (filter (\<lambda>r. r_importance r \<noteq> CNull
                                  \<and> evalWhere (whereClauses f) r = Inr True) db)))"
proof -
  from assms obtain n where
    "ImportanceGe n \<in> set (whereClauses f) \<or> ImportanceLe n \<in> set (whereClauses f)"
    using whereClauses_bounds by blast
  then have null: "evalWhere (whereClauses f) r = Inr False" if "r_importance r = CNull" for r
    using that by (rule evalWhere_null_importance)
  then have "selectWhere (whereClauses f) (filter (\<lambda>r. r_importance r \<noteq> CNull) db)
      = selectWhere (whereClauses f) db"
    by (intro selectWhere_skip) simp
  then have eq: "listMemories db f = listMemories (filter (\<lambda>r. r_importance r \<noteq> CNull) db) f"
    by (intro listMemories_cong) simp
  have match: "r_importance r \<noteq> CNull" if "evalWhere (whereClauses f) r = Inr True" for r
    using that null [of r] by auto
  have "(\<forall>m \<in> set (l_items res). m_importance m \<noteq> None)
        \<and> l_total res = int (length (filter (\<lambda>r. r_importance r \<noteq> CNull
                                  \<and> evalWhere (whereClauses f) r = Inr True) db))"
    if r: "listMemories db f = Inr res" for res
  proof -
    from r obtain page where p: "mapRows page = Inr (l_items res)"
      and pg: "page = take (nat (l_limit res)) (drop (nat (l_offset res))
              (orderByUpdatedAtDesc (filter (\<lambda>r. evalWhere (whereClauses f) r = Inr True) db)))"
      and t: "l_total res = int (length (filter (\<lambda>r. evalWhere (whereClauses f) r = Inr True) db))"
      by (rule listMemories_Inr)
    have "\<forall>r \<in> set page. r_importance r \<noteq> CNull"
      unfolding pg using match
      by (auto simp: set_orderByUpdatedAtDesc dest!: in_set_takeD in_set_dropD)
    then have "\<forall>m \<in> set (l_items res). m_importance m \<noteq> None"
      using mapRows_set [OF p]
      by (metis mapRow_fields(4) readImportance.elims option.distinct(1))
    moreover have "filter (\<lambda>r. evalWhere (whereClauses f) r = Inr True) db
        = filter (\<lambda>r. r_importance r \<noteq> CNull \<and> evalWhere (whereClauses f) r = Inr True) db"
      using match by (intro filter_cong) auto
    ultimately show ?thesis using t by simp
  qed
  with eq show ?thesis by blast
qed

theorem list_excludes_null_importance_witness:
  "f_minImportance (noFilters \<lparr> f_minImportance := Some 5 \<rparr>) \<noteq> None
   \<and> r_importance exampleRowB = CNull
   \<and> listMemories [exampleRow, exampleRowB] (noFilters \<lparr> f_minImportance := Some 5 \<rparr>)
       = listMemories [exampleRow] (noFilters \<lparr> f_minImportance := Some 5 \<rparr>)
   \<and> listMemories [exampleRow, exampleRowB] (noFilters \<lparr> f_minImportance := Some 5 \<rparr>)
       = Inr \<lparr> l_items = [exampleRecord], l_total = 1, l_limit = 50, l_offset = 0 \<rparr>"
  using list_example_min
    list_excludes_null_importance [of "noFilters \<lparr> f_minImportance := Some 5 \<rparr>"
      "[exampleRow, exampleRowB]"]
  by simp

section \<open>Tags, malformed columns and importance on read\<close>

text \<open>
  Claim C1, at the scenario of the specification. The record created with the tags
  Work, work, Urgent and importance 20 is stored with the tags Work, Urgent and
  importance 10. Listing with the tag urgent and minImportance 5 returns no item
  and total 0; listing with the tag Urgent returns the record.
\<close>

theorem tag_filter_tells_case_apart:
  "addMemory [] ''m1'' ''2024-01-01T00:00:00.000Z'' scenarioInput
     = Inr (scenarioRecord, [scenarioRow])
   \<and> listMemories [scenarioRow] (noFilters \<lparr> f_tags := Some [''urgent''], f_minImportance := Some 5 \<rparr>)
       = Inr \<lparr> l_items = [], l_total = 0, l_limit = 50, l_offset = 0 \<rparr>
   \<and> listMemories [scenarioRow] (noFilters \<lparr> f_tags := Some [''Urgent''], f_minImportance := Some 5 \<rparr>)
       = Inr \<lparr> l_items = [scenarioRecord], l_total = 1, l_limit = 50, l_offset = 0 \<rparr>"
  by code_simp

text \<open>
  Claim C2, as stated, fails on JSON of another shape: a tags column holding the
  object with the one entry a: 1 makes the read fail with a TypeError, and a
  metadata column holding the number 5 is returned as the number 5.
\<close>

theorem wrong_shape_not_defaulted:
  "getMemory [exampleRow \<lparr> r_tags := Some (JsonText (JObj [(''a'', JNum 1)])),
                           r_tags_each := Rows [SqlInteger 1] \<rparr>] ''m1''
     = Inl TypeError
   \<and> getMemory [exampleRow \<lparr> r_metadata := Some (JsonText (JNum 5)) \<rparr>] ''m1''
       = Inr (Some (exampleRecord \<lparr> m_metadata := JNum 5 \<rparr>))"
  by code_simp

lemma parseJson_unparseable: "unparseable col \<Longrightarrow> parseJson col d = d"
  by (auto simp: unparseable_def parseJson_def)

lemma normalizeTagsUntyped_empty: "normalizeTagsUntyped (JArr []) = Inr []"
  by (simp add: normalizeTagsUntyped_def)

lemma trimAll_fails: "\<not> list_all isString xs \<Longrightarrow> trimAll xs = Inl TypeError"
  by (induction xs rule: trimAll.induct) auto

lemma trimAll_succeeds: "list_all isString xs \<Longrightarrow> \<exists>out. trimAll xs = Inr out"
  by (induction xs rule: trimAll.induct) auto

lemma normalizeTagsUntyped_result:
  "normalizeTagsUntyped v =
     (if falsy v \<or> lengthIsZero v \<or> (case v of JArr xs \<Rightarrow> list_all isString xs | _ \<Rightarrow> False)
      then normalizeTagsUntyped v else Inl TypeError)"
  using trimAll_fails by (auto simp: normalizeTagsUntyped_def split: json.splits)

lemma normalizeTagsUntyped_readable:
  assumes "falsy v \<or> lengthIsZero v \<or> (case v of JArr xs \<Rightarrow> list_all isString xs | _ \<Rightarrow> False)"
  shows "\<exists>ts. normalizeTagsUntyped v = Inr ts"
proof (cases "falsy v \<or> lengthIsZero v")
  case True
  then show ?thesis by (simp add: normalizeTagsUntyped_def)
next
  case False
  with assms obtain xs where x: "v = JArr xs" "list_all isString xs"
    by (cases v) auto
  then obtain out where "trimAll xs = Inr out"
    using trimAll_succeeds by blast
  with False x show ?thesis by (simp add: normalizeTagsUntyped_def)
qed

lemma unparseable_tagsReadable: "unparseable col \<Longrightarrow> tagsReadable col"
  by (auto simp: unparseable_def tagsReadable_def)

lemma mapRow_readable:
  assumes "tagsReadable (r_tags row)"
  shows "\<exists>m. mapRow row = Inr m"
proof -
  have "\<exists>ts. normalizeTagsUntyped (parseJson (r_tags row) (JArr [])) = Inr ts"
  proof (cases "unparseable (r_tags row)")
    case True
    then show ?thesis by (simp add: parseJson_unparseable normalizeTagsUntyped_empty)
  next
    case False
    then obtain v where v: "r_tags row = Some (JsonText v)"
      by (auto simp: unparseable_def split: option.splits coltext.splits)
        (metis coltext.exhaust option.exhaust)
    with assms show ?thesis
      using normalizeTagsUntyped_readable [of v] by (simp add: tagsReadable_def parseJson_def)
  qed
  then show ?thesis by (auto simp: mapRow_def)
qed

lemma mapRow_unreadable:
  assumes "\<not> tagsReadable (r_tags row)"
  shows "mapRow row = Inl TypeError"
proof -
  from assms obtain v where v: "r_tags row = Some (JsonText v)"
    "\<not> (falsy v \<or> lengthIsZero v \<or> (case v of JArr xs \<Rightarrow> list_all isString xs | _ \<Rightarrow> False))"
    by (auto simp: tagsReadable_def split: option.splits coltext.splits)
  then have "normalizeTagsUntyped (parseJson (r_tags row) (JArr [])) = Inl TypeError"
    using normalizeTagsUntyped_result [of v] by (simp add: parseJson_def)
  then show ?thesis by (simp add: mapRow_def)
qed

lemma mapRow_tags_parsed:
  assumes "mapRow row = Inr m" and "r_tags row = Some (JsonText v)"
  shows "falsy v \<or> lengthIsZero v \<Longrightarrow> m_tags m = []"
    and "v = JArr xs \<Longrightarrow> m_tags m = normalizeTags (Some (map theString xs))"
proof -
  from assms have n: "normalizeTagsUntyped v = Inr (m_tags m)"
    by (auto simp: mapRow_def parseJson_def split: sum.splits)
  then show "m_tags m = []" if "falsy v \<or> lengthIsZero v"
    using that by (simp add: normalizeTagsUntyped_def)
  show "m_tags m = normalizeTags (Some (map theString xs))" if v: "v = JArr xs"
  proof -
    have "list_all isString xs"
      using n trimAll_fails [of xs] unfolding v
      by (cases "list_all isString xs")
        (auto simp: normalizeTagsUntyped_def split: if_splits)
    then have "normalizeTagsUntyped (JArr xs) = Inr (normalizeTags (Some (map theString xs)))"
      using normalizeTagsUntyped_strings [of "map theString xs"] strings_of_isString [of xs]
      by simp
    with n v show ?thesis by simp
  qed
qed

text \<open>
  Claim C2, amended. For every stored row whose tags or metadata column does not
  contain well-formed JSON (it is NULL, empty, or a text that \<^verbatim>\<open>JSON.parse\<close>
  rejects), getMemory and the row mapping used by list return the record with the
  empty default in the place of that column, the empty tag sequence for tags and the
  empty mapping for metadata, rather than failing the read, unless the tags column
  makes the read fail: the read fails, with a TypeError, exactly when the tags
  column contains well-formed JSON that is not falsy, has not the length 0 and is
  not an array of strings. Well-formed JSON is read as it is parsed, of whatever
  shape: a metadata column as the value it holds; a tags column that holds a falsy
  value or a value of length 0 as the empty sequence, and one that holds an array
  of strings as the normalized sequence of these strings.
\<close>

theorem unparseable_column_defaults:
  assumes "selectById db ident = Some row"
  shows "(tagsReadable (r_tags row) \<longrightarrow>
            (\<exists>m. getMemory db ident = Inr (Some m) \<and> mapRow row = Inr m
                  \<and> (unparseable (r_tags row) \<longrightarrow> m_tags m = [])
                  \<and> (unparseable (r_metadata row) \<longrightarrow> m_metadata m = JObj [])
                  \<and> (\<forall>v. r_metadata row = Some (JsonText v) \<longrightarrow> m_metadata m = v)
                  \<and> (\<forall>v. r_tags row = Some (JsonText v) \<and> (falsy v \<or> lengthIsZero v) \<longrightarrow>
                         m_tags m = [])
                  \<and> (\<forall>xs. r_tags row = Some (JsonText (JArr xs)) \<longrightarrow>
                         m_tags m = normalizeTags (Some (map theString xs)))))
         \<and> (\<not> tagsReadable (r_tags row) \<longrightarrow>
              getMemory db ident = Inl TypeError \<and> mapRow row = Inl TypeError)
         \<and> (unparseable (r_tags row) \<longrightarrow> tagsReadable (r_tags row))"
proof (intro conjI impI)
  assume "tagsReadable (r_tags row)"
  then obtain m where m: "mapRow row = Inr m"
    using mapRow_readable by blast
  then have "getMemory db ident = Inr (Some m)"
    using assms by (simp add: getMemory_def)
  moreover have "m_tags m = []" if "unparseable (r_tags row)"
    using that m by (auto simp: mapRow_def parseJson_unparseable normalizeTagsUntyped_empty)
  moreover have "m_metadata m = JObj []" if "unparseable (r_metadata row)"
    using that mapRow_fields(5) [OF m] by (simp add: parseJson_unparseable)
  moreover have "m_metadata m = v" if "r_metadata row = Some (JsonText v)" for v
    using that mapRow_fields(5) [OF m] by (simp add: parseJson_def)
  moreover have "m_tags m = []"
    if "r_tags row = Some (JsonText v) \<and> (falsy v \<or> lengthIsZero v)" for v
    using that mapRow_tags_parsed(1) [OF m, of v] by simp
  moreover have "m_tags m = normalizeTags (Some (map theString xs))"
    if "r_tags row = Some (JsonText (JArr xs))" for xs
    using that mapRow_tags_parsed(2) [OF m, of "JArr xs" xs] by simp
  ultimately show "\<exists>m. getMemory db ident = Inr (Some m) \<and> mapRow row = Inr m
                  \<and> (unparseable (r_tags row) \<longrightarrow> m_tags m = [])
                  \<and> (unparseable (r_metadata row) \<longrightarrow> m_metadata m = JObj [])
                  \<and> (\<forall>v. r_metadata row = Some (JsonText v) \<longrightarrow> m_metadata m = v)
                  \<and> (\<forall>v. r_tags row = Some (JsonText v) \<and> (falsy v \<or> lengthIsZero v) \<longrightarrow>
                         m_tags m = [])
                  \<and> (\<forall>xs. r_tags row = Some (JsonText (JArr xs)) \<longrightarrow>
                         m_tags m = normalizeTags (Some (map theString xs)))"
    using m by (intro exI [of _ m]) blast
next
  assume "\<not> tagsReadable (r_tags row)"
  then have "mapRow row = Inl TypeError" by (rule mapRow_unreadable)
  then show "getMemory db ident = Inl TypeError" "mapRow row = Inl TypeError"
    using assms by (simp_all add: getMemory_def)
next
  assume "unparseable (r_tags row)"
  then show "tagsReadable (r_tags row)" by (rule unparseable_tagsReadable)
qed

lemma selectById_single: "r_id row = ident \<Longrightarrow> selectById [row] ident = Some row"
  by (simp add: selectById_def)

theorem unparseable_column_defaults_witness:
  "selectById [exampleRow \<lparr> r_tags := Some MalformedText, r_tags_each := MalformedJson,
                            r_metadata := Some EmptyText \<rparr>] ''m1''
     = Some (exampleRow \<lparr> r_tags := Some MalformedText, r_tags_each := MalformedJson,
                         r_metadata := Some EmptyText \<rparr>)
   \<and> unparseable (Some MalformedText) \<and> unparseable (Some EmptyText)
   \<and> tagsReadable (Some MalformedText)
   \<and> (\<exists>m. getMemory [exampleRow \<lparr> r_tags := Some MalformedText, r_tags_each := MalformedJson,
                                   r_metadata := Some EmptyText \<rparr>] ''m1''
              = Inr (Some m)
          \<and> m_tags m = [] \<and> m_metadata m = JObj [])
   \<and> selectById [exampleRow \<lparr> r_tags := Some (JsonText JNull), r_tags_each := Rows [SqlNull],
                              r_metadata := Some (JsonText (JNum 5)) \<rparr>] ''m1''
       = Some (exampleRow \<lparr> r_tags := Some (JsonText JNull), r_tags_each := Rows [SqlNull],
                           r_metadata := Some (JsonText (JNum 5)) \<rparr>)
   \<and> tagsReadable (Some (JsonText JNull)) \<and> falsy JNull
   \<and> (\<exists>m. getMemory [exampleRow \<lparr> r_tags := Some (JsonText JNull), r_tags_each := Rows [SqlNull],
                                   r_metadata := Some (JsonText (JNum 5)) \<rparr>] ''m1''
              = Inr (Some m)
          \<and> m_tags m = [] \<and> m_metadata m = JNum 5)
   \<and> selectById [exampleRow \<lparr> r_tags := Some (JsonText (JArr [JStr '' a '', JStr ''A''])),
                              r_tags_each := Rows [SqlText '' a '', SqlText ''A''] \<rparr>] ''m1''
       = Some (exampleRow \<lparr> r_tags := Some (JsonText (JArr [JStr '' a '', JStr ''A''])),
                           r_tags_each := Rows [SqlText '' a '', SqlText ''A''] \<rparr>)
   \<and> tagsReadable (Some (JsonText (JArr [JStr '' a '', JStr ''A''])))
   \<and> (\<exists>m. getMemory [exampleRow \<lparr> r_tags := Some (JsonText (JArr [JStr '' a '', JStr ''A''])),
                                   r_tags_each := Rows [SqlText '' a '', SqlText ''A''] \<rparr>] ''m1''
              = Inr (Some m)
          \<and> m_tags m = [''a''])
   \<and> selectById [exampleRow \<lparr> r_tags := Some (JsonText (JNum 5)),
                              r_tags_each := Rows [SqlInteger 5] \<rparr>] ''m1''
       = Some (exampleRow \<lparr> r_tags := Some (JsonText (JNum 5)),
                           r_tags_each := Rows [SqlInteger 5] \<rparr>)
   \<and> \<not> tagsReadable (Some (JsonText (JNum 5)))
   \<and> getMemory [exampleRow \<lparr> r_tags := Some (JsonText (JNum 5)),
                             r_tags_each := Rows [SqlInteger 5] \<rparr>] ''m1''
       = Inl TypeError"
proof -
  have n: "normalizeTags (Some (map theString [JStr '' a '', JStr ''A''])) = [''a'']"
    by code_simp
  have s: "selectById [r] ''m1'' = Some r" if "r_id r = ''m1''" for r
    using that by (rule selectById_single)
  show ?thesis
    using n
      unparseable_column_defaults [OF s,
        of "exampleRow \<lparr> r_tags := Some MalformedText, r_tags_each := MalformedJson,
                         r_metadata := Some EmptyText \<rparr>"]
      unparseable_column_defaults [OF s,
        of "exampleRow \<lparr> r_tags := Some (JsonText JNull), r_tags_each := Rows [SqlNull],
                         r_metadata := Some (JsonText (JNum 5)) \<rparr>"]
      unparseable_column_defaults [OF s,
        of "exampleRow \<lparr> r_tags := Some (JsonText (JArr [JStr '' a '', JStr ''A''])),
                         r_tags_each := Rows [SqlText '' a '', SqlText ''A''] \<rparr>"]
      unparseable_column_defaults [OF s,
        of "exampleRow \<lparr> r_tags := Some (JsonText (JNum 5)),
                         r_tags_each := Rows [SqlInteger 5] \<rparr>"]
    by (auto simp: unparseable_def tagsReadable_def selectById_def)
qed

text \<open>
  Claim C8, at a row whose importance column holds a text that is not a numeral:
  the record read has the importance NaN, which is neither null nor an integer
  from 0 to 10. An update that leaves importance out returns NaN again.
\<close>

theorem nonnumeric_importance_not_clamped:
  "getMemory [exampleRow \<lparr> r_importance := CNonNumeric \<rparr>] ''m1''
     = Inr (Some (exampleRecord \<lparr> m_importance := Some NaN \<rparr>))
   \<and> updateMemory [exampleRow \<lparr> r_importance := CNonNumeric \<rparr>] ''2024-02-02T00:00:00.000Z''
         \<lparr> u_id = ''m1'', u_title = Value ''t'', u_content = None, u_importance = Omitted,
           u_tags = Omitted, u_metadata = Omitted \<rparr>
       = Inr (Some (exampleRecord \<lparr> m_title := Some ''t'', m_importance := Some NaN,
                                   m_updatedAt := ''2024-02-02T00:00:00.000Z'' \<rparr>),
              [exampleRow \<lparr> r_title := Some ''t'', r_importance := CNull,
                            r_updated_at := ''2024-02-02T00:00:00.000Z'' \<rparr>])"
  by code_simp

section \<open>Importance on the write paths and on integer columns\<close>

lemma clampImportance_valid: "validImportance (Some (clampImportance (Num n)))"
  by (simp add: validImportance_def)

lemma addMemory_importance_range:
  assumes "addMemory db ident now input = Inr (rec, db')"
  shows "validImportance (m_importance rec)"
proof -
  from assms have "m_importance rec = map_option (\<lambda>n. clampImportance (Num n)) (c_importance input)"
    by (auto simp: addMemory_def Let_def split: sum.splits simp del: clampImportance.simps)
  then show ?thesis
    by (cases "c_importance input") (simp_all add: validImportance_def)
qed

lemma addMemory_importance_examples:
  "map_sum id (m_importance \<circ> fst)
     (addMemory [] ''m1'' ''t'' \<lparr> c_title = None, c_content = ''x'', c_importance = Some 15,
        c_tags = None, c_metadata = None \<rparr>) = Inr (Some (Num 10))"
  "map_sum id (m_importance \<circ> fst)
     (addMemory [] ''m1'' ''t'' \<lparr> c_title = None, c_content = ''x'', c_importance = Some (- 3),
        c_tags = None, c_metadata = None \<rparr>) = Inr (Some (Num 0))"
  "map_sum id (m_importance \<circ> fst)
     (addMemory [] ''m1'' ''t'' \<lparr> c_title = None, c_content = ''x'', c_importance = None,
        c_tags = None, c_metadata = None \<rparr>) = Inr None"
  by (simp_all add: addMemory_def insertRow_def Let_def)

lemma mapRow_importance_range:
  assumes "mapRow row = Inr m" and "r_importance row = CNull \<or> r_importance row = CInt n"
  shows "validImportance (m_importance m)"
  using assms(2) mapRow_fields(4) [OF assms(1)]
  by (auto simp: validImportance_def)

lemma updateMemory_importance_range:
  assumes "updateMemory db now input = Inr (Some rec, db')"
  shows "validImportance (m_importance rec) \<or> m_importance rec = Some NaN"
proof -
  from assms obtain x where "m_importance rec = map_option clampImportance x"
    by (auto simp: updateMemory_def Let_def split: sum.splits option.splits)
  then show ?thesis
    by (cases x rule: bindImportance.cases) (simp_all add: validImportance_def)
qed

end
